theory Spec2Isabelle
  imports Main "HOL-Library.Sublist"
begin

section \<open>JavaScript values and strings\<close>

text \<open>
  The component stores attribute values and interpolated template values. The model keeps the
  kinds of value the code tells apart: \<open>undefined\<close>, \<open>null\<close>, the booleans of the lifecycle
  flags, strings, and objects. Of an object the model keeps the class tag that its default
  string conversion shows (\<open>[object ShadowRoot]\<close>); the only object the component stores is
  its root, in \<open>$root\<close>. Any other value only ever reaches the DOM through its string
  conversion, so it is represented by that string. A \<open>string\<close> is the list of the code units
  of the JavaScript string (code units below 256; the regular expressions of the source have
  no \<open>u\<close> flag and work on code units).
\<close>

datatype jsval = Undefined | Null | Bool bool | Str string | Object string

datatype error = TypeError | InvalidCharacterError

text \<open>\<open>String(v)\<close>, also applied implicitly by \<open>+=\<close> on a string and by \<open>setAttribute\<close>.\<close>

fun toString :: "jsval \<Rightarrow> string" where
  "toString Undefined = ''undefined''"
| "toString Null = ''null''"
| "toString (Bool b) = (if b then ''true'' else ''false'')"
| "toString (Str s) = s"
| "toString (Object tag) = ''[object '' @ tag @ '']''"

text \<open>\<open>s.replace(/c/g, r)\<close> for a single literal character \<open>c\<close>.\<close>

definition replace_char :: "char \<Rightarrow> string \<Rightarrow> string \<Rightarrow> string" where
  "replace_char c r s = concat (map (\<lambda>x. if x = c then r else [x]) s)"

text \<open>
  \<open>String.prototype.trim\<close>: white space and line terminators are removed at both ends
  (tab, line feed, vertical tab, form feed, carriage return, space, no-break space).
\<close>

definition is_space :: "char \<Rightarrow> bool" where
  "is_space c = (c \<in> set [CHR 0x09, CHR 0x0A, CHR 0x0B, CHR 0x0C, CHR 0x0D, CHR 0x20, CHR 0xA0])"

definition trim :: "string \<Rightarrow> string" where
  "trim s = rev (dropWhile is_space (rev (dropWhile is_space s)))"

text \<open>
  \<open>templates[i]\<close> used as an operand of a string concatenation: an index out of range reads
  \<open>undefined\<close>, which the concatenation turns into the text \<open>undefined\<close>.
\<close>

definition tplAt :: "string list \<Rightarrow> nat \<Rightarrow> string" where
  "tplAt ts i = (if i < length ts then ts ! i else ''undefined'')"

section \<open>Template compiler, escaping variant\<close>

text \<open>
  \<^verbatim>\<open>
  function escapeHTML(str) {
    return String(str)
      .replace(/&/g, "&amp;").replace(/</g, "&lt;").replace(/>/g, "&gt;")
      .replace(/"/g, "&quot;").replace(/'/g, "&#039;");
  }\<close>
\<close>

definition escapeHTML :: "jsval \<Rightarrow> string" where
  "escapeHTML v =
     replace_char (CHR 0x27) ''&#039;''
       (replace_char (CHR 0x22) ''&quot;''
         (replace_char (CHR ''>'') ''&gt;''
           (replace_char (CHR ''<'') ''&lt;''
             (replace_char (CHR ''&'') ''&amp;'' (toString v)))))"

text \<open>
  The regular expression \<^verbatim>\<open>/\(\{([^}]+)\}\)/\<close> tried at the head of a string: the two
  characters \<open>({\<close>, then the longest run of characters other than \<open>}\<close> (at least one; a shorter
  run cannot be followed by \<open>}\<close>, so backtracking never succeeds), then \<open>})\<close>. The result is
  the captured key and the text after the match.
\<close>

definition match_marker :: "string \<Rightarrow> (string \<times> string) option" where
  "match_marker s =
     (case s of
        a # b # t \<Rightarrow>
          if a = CHR ''('' \<and> b = CHR ''{'' \<and> takeWhile (\<lambda>c. c \<noteq> CHR ''}'') t \<noteq> [] then
            (case dropWhile (\<lambda>c. c \<noteq> CHR ''}'') t of
               c # d # u \<Rightarrow>
                 if c = CHR ''}'' \<and> d = CHR '')'' then Some (takeWhile (\<lambda>c. c \<noteq> CHR ''}'') t, u)
                 else None
             | _ \<Rightarrow> None)
          else None
      | _ \<Rightarrow> None)"

text \<open>The callback of the replacement: \<^verbatim>\<open><span data-ref="${safeRef}">${safeRef}</span>\<close>.\<close>

definition marker_span :: "string \<Rightarrow> string" where
  "marker_span key =
     ''<span data-ref=\"'' @ escapeHTML (Str key) @ ''\">'' @ escapeHTML (Str key) @ ''</span>''"

text \<open>
  \<open>str.replace(regex, callback)\<close> with the \<open>g\<close> flag: the matches are found from left to
  right, the search resuming after each match; text outside the matches is copied.
\<close>

function replace_markers :: "string \<Rightarrow> string" where
  "replace_markers [] = []"
| "replace_markers (c # s) =
     (case match_marker (c # s) of
        Some (key, u) \<Rightarrow> marker_span key @ replace_markers u
      | None \<Rightarrow> c # replace_markers s)"
  by pat_completeness auto
termination
proof -
  have shorter: "length u < length s" if m: "match_marker s = Some (k, u)" for s k u
  proof -
    from m obtain a b t c d where s: "s = a # b # t"
      and d: "dropWhile (\<lambda>c. c \<noteq> CHR ''}'') t = c # d # u"
      by (auto simp: match_marker_def split: if_splits list.splits)
    have "length (dropWhile (\<lambda>c. c \<noteq> CHR ''}'') t) \<le> length t"
      by (rule length_dropWhile_le)
    with s d show ?thesis by simp
  qed
  show ?thesis
    by (relation "measure length") (auto dest: shorter)
qed

text \<open>
  \<^verbatim>\<open>
  export function html(templates, ...values) {
    let str = templates[0]
    values.forEach((val, i) => { str += escapeHTML(val) + templates[i + 1] })
    str = str.replace(/\(\{([^}]+)\}\)/g, (_, key) => { ... })
    template.innerHTML = str.trim()
    return template.content.cloneNode(true)
  }\<close>
  The model returns the markup handed to the host's parser (\<open>template.innerHTML\<close>). With no
  template segment and no value, \<open>str\<close> is \<open>undefined\<close> and \<open>str.replace\<close> raises.
\<close>

fun interpolate_esc :: "string \<Rightarrow> string list \<Rightarrow> nat \<Rightarrow> jsval list \<Rightarrow> string" where
  "interpolate_esc str ts i [] = str"
| "interpolate_esc str ts i (v # vs) =
     interpolate_esc (str @ escapeHTML v @ tplAt ts (i + 1)) ts (i + 1) vs"

definition html_esc :: "string list \<Rightarrow> jsval list \<Rightarrow> error + string" where
  "html_esc templates vals =
     (if templates = [] \<and> vals = [] then Inl TypeError
      else Inr (trim (replace_markers (interpolate_esc (tplAt templates 0) templates 0 vals))))"

section \<open>Template compiler, rewriting variant\<close>

text \<open>The character classes \<^verbatim>\<open>[a-zA-Z0-9_]\<close> and \<^verbatim>\<open>[a-zA-Z0-9_-]\<close>.\<close>

definition is_ident_char :: "char \<Rightarrow> bool" where
  "is_ident_char c =
     (c \<in> set ''abcdefghijklmnopqrstuvwxyzABCDEFGHIJKLMNOPQRSTUVWXYZ0123456789_'')"

definition is_attr_char :: "char \<Rightarrow> bool" where
  "is_attr_char c = (is_ident_char c \<or> c = CHR ''-'')"

text \<open>
  The regular expression \<^verbatim>\<open>/([a-zA-Z0-9_-]+)="\(\{([a-zA-Z0-9_]+)\}\)"/\<close> tried at the head
  of a string. Both runs are greedy, and the character that must follow each run is outside
  the run's class, so only the longest run can match. The result is the attribute name, the
  variable and the text after the match.
\<close>

definition match_attr :: "string \<Rightarrow> (string \<times> string \<times> string) option" where
  "match_attr s =
     (if takeWhile is_attr_char s = [] then None
      else
        (case dropWhile is_attr_char s of
           e # q # p # b # r \<Rightarrow>
             if e = CHR ''='' \<and> q = CHR 0x22 \<and> p = CHR ''('' \<and> b = CHR ''{''
                \<and> takeWhile is_ident_char r \<noteq> [] then
               (case dropWhile is_ident_char r of
                  cb # cp # cq # rest \<Rightarrow>
                    if cb = CHR ''}'' \<and> cp = CHR '')'' \<and> cq = CHR 0x22
                    then Some (takeWhile is_attr_char s, takeWhile is_ident_char r, rest)
                    else None
                | _ \<Rightarrow> None)
             else None
         | _ \<Rightarrow> None))"

text \<open>The matched text \<open>full\<close> of an attribute marker, and its replacement
  \<^verbatim>\<open>`${attr}="" data-ref-${attr}="${variable}" data-ref`\<close>.\<close>

definition attr_marker :: "string \<Rightarrow> string \<Rightarrow> string" where
  "attr_marker attr var = attr @ ''=\"({'' @ var @ ''})\"''"

definition attr_replacement :: "string \<Rightarrow> string \<Rightarrow> string" where
  "attr_replacement attr var =
     attr @ ''=\"\" data-ref-'' @ attr @ ''=\"'' @ var @ ''\" data-ref''"

text \<open>
  \<open>[...str.matchAll(attrRegex)]\<close>: the matches from left to right, the search resuming after
  each match. Each entry is \<open>[full, attr, variable]\<close>.
\<close>

function matchAll_attr :: "string \<Rightarrow> (string \<times> string \<times> string) list" where
  "matchAll_attr [] = []"
| "matchAll_attr (c # s) =
     (case match_attr (c # s) of
        Some (attr, var, rest) \<Rightarrow> (attr_marker attr var, attr, var) # matchAll_attr rest
      | None \<Rightarrow> matchAll_attr s)"
  by pat_completeness auto
termination
proof -
  have shorter: "length u < length s" if m: "match_attr s = Some (a, v, u)" for s a v u
  proof -
    from m obtain e q p b r where d: "dropWhile is_attr_char s = e # q # p # b # r"
      by (auto simp: match_attr_def split: if_splits list.splits)
    with m obtain cb cp cq where "dropWhile is_ident_char r = cb # cp # cq # u"
      by (auto simp: match_attr_def split: if_splits list.splits)
    then have "length u < length (dropWhile is_ident_char r)" by simp
    also have "\<dots> \<le> length r" by (rule length_dropWhile_le)
    also have "\<dots> < length (dropWhile is_attr_char s)" using d by simp
    also have "\<dots> \<le> length s" by (rule length_dropWhile_le)
    finally show ?thesis .
  qed
  show ?thesis
    by (relation "measure length") (auto dest: shorter)
qed

text \<open>
  \<open>str.replace(full, replacement)\<close> with a string pattern: the first occurrence of the pattern
  is replaced. (The replacement text holds no \<open>$\<close>, since \<open>attr\<close> and \<open>variable\<close> hold none, so
  it is inserted as it is.)
\<close>

fun replace_first :: "string \<Rightarrow> string \<Rightarrow> string \<Rightarrow> string" where
  "replace_first pat rep [] = (if pat = [] then rep else [])"
| "replace_first pat rep (c # s) =
     (if prefix pat (c # s) then rep @ drop (length pat) (c # s)
      else c # replace_first pat rep s)"

text \<open>
  \<^verbatim>\<open>
  attrMatches.forEach(([full, attr, variable]) => {
    const replacement = `${attr}="" data-ref-${attr}="${variable}" data-ref`
    str = str.replace(full, replacement)
  })\<close>
\<close>

fun rewrite_attrs :: "(string \<times> string \<times> string) list \<Rightarrow> string \<Rightarrow> string" where
  "rewrite_attrs [] str = str"
| "rewrite_attrs ((full, attr, var) # ms) str =
     rewrite_attrs ms (replace_first full (attr_replacement attr var) str)"

text \<open>The regular expression \<^verbatim>\<open>/\(\{([a-zA-Z0-9_]+)\}\)/\<close> tried at the head of a string.\<close>

definition match_content :: "string \<Rightarrow> (string \<times> string) option" where
  "match_content s =
     (case s of
        a # b # t \<Rightarrow>
          if a = CHR ''('' \<and> b = CHR ''{'' \<and> takeWhile is_ident_char t \<noteq> [] then
            (case dropWhile is_ident_char t of
               c # d # u \<Rightarrow>
                 if c = CHR ''}'' \<and> d = CHR '')'' then Some (takeWhile is_ident_char t, u)
                 else None
             | _ \<Rightarrow> None)
          else None
      | _ \<Rightarrow> None)"

text \<open>The callback of the content replacement: \<^verbatim>\<open>`<span data-ref="${key}"></span>`\<close>.\<close>

definition content_span :: "string \<Rightarrow> string" where
  "content_span key = ''<span data-ref=\"'' @ key @ ''\"></span>''"

function replace_content :: "string \<Rightarrow> string" where
  "replace_content [] = []"
| "replace_content (c # s) =
     (case match_content (c # s) of
        Some (key, u) \<Rightarrow> content_span key @ replace_content u
      | None \<Rightarrow> c # replace_content s)"
  by pat_completeness auto
termination
proof -
  have shorter: "length u < length s" if m: "match_content s = Some (k, u)" for s k u
  proof -
    from m obtain a b t c d where s: "s = a # b # t"
      and d: "dropWhile is_ident_char t = c # d # u"
      by (auto simp: match_content_def split: if_splits list.splits)
    have "length (dropWhile is_ident_char t) \<le> length t"
      by (rule length_dropWhile_le)
    with s d show ?thesis by simp
  qed
  show ?thesis
    by (relation "measure length") (auto dest: shorter)
qed

text \<open>
  \<^verbatim>\<open>
  export function html(templates, ...values) {
    let str = ''
    templates.forEach((tpl, i) => {
      str += tpl
      if (i < values.length) str += values[i]
    })
    const attrMatches = [...str.matchAll(attrRegex)]
    attrMatches.forEach(...)
    str = str.replace(contentRegex, (_, key) => `<span data-ref="${key}"></span>`)
    template.innerHTML = str.trim()
    return template.content.cloneNode(true)
  }\<close>
  The values are inserted as they are. The model returns the markup handed to the host's
  parser.
\<close>

fun interpolate_raw :: "string list \<Rightarrow> jsval list \<Rightarrow> string" where
  "interpolate_raw [] vs = []"
| "interpolate_raw (t # ts) [] = t @ interpolate_raw ts []"
| "interpolate_raw (t # ts) (v # vs) = t @ toString v @ interpolate_raw ts vs"

definition rewrite_all_attrs :: "string \<Rightarrow> string" where
  "rewrite_all_attrs str = rewrite_attrs (matchAll_attr str) str"

definition html_raw :: "string list \<Rightarrow> jsval list \<Rightarrow> string" where
  "html_raw templates vals =
     trim (replace_content (rewrite_all_attrs (interpolate_raw templates vals)))"

text \<open>
  The template of the playground's \<^verbatim>\<open>UserCard\<close> component, as the strings the tag
  function receives around the one interpolated value \<^verbatim>\<open>${this.name}\<close>:
  \<^verbatim>\<open>
  render() {
      this.template = html`
      <div class="user-card" title="({name})" email="({})">
          <h2>${this.name}</h2>
          <p>({email})</p>
          ...
      </div>`
  }\<close>
\<close>

definition UserCard_templates :: "string list" where
  "UserCard_templates =
    [CHR 0x0A # ''        <div class=\"user-card\" title=\"({name})\" email=\"({})\">''
      @ CHR 0x0A # ''            <h2>'',
     ''</h2>''
      @ CHR 0x0A # ''            <p>({email})</p>''
      @ CHR 0x0A # ''            <div class=\"user-card__button-box\">''
      @ CHR 0x0A # ''                <button data-id=\"update-name\">Update name</button>''
      @ CHR 0x0A # ''                <button data-id=\"update-email\">Update email</button>''
      @ CHR 0x0A # ''            </div>''
      @ CHR 0x0A # ''            <input data-id=\"input\" type=\"text\" placeholder=\"type here...\">''
      @ CHR 0x0A # ''        </div>'']"

section \<open>The component base class\<close>

subsection \<open>The DOM under the component's root\<close>

text \<open>
  The subtree under \<open>$root\<close> is a list of nodes. An element has a local name, its attributes in
  the order of the host's attribute list, and its child nodes. An element is identified by its
  path from the root (the child indices): the only change of structure the component makes is
  the text write of \<open>textContent\<close>, which removes all descendants of the element written to.
\<close>

datatype node =
    Text string
  | Element (localName: string) (attributes: "(string \<times> string) list") (children: "node list")

text \<open>\<open>element.getAttribute(name)\<close>; \<open>None\<close> is \<open>null\<close>.\<close>

definition getAttribute :: "node \<Rightarrow> string \<Rightarrow> string option" where
  "getAttribute e name = map_of (attributes e) name"

text \<open>
  A name the host accepts in \<open>setAttribute\<close>: not empty and without white space, \<open>NUL\<close>,
  \<open>/\<close>, \<open>=\<close> or \<open>>\<close>. Any other name makes \<open>setAttribute\<close> raise \<open>InvalidCharacterError\<close>.
\<close>

definition valid_attribute_name :: "string \<Rightarrow> bool" where
  "valid_attribute_name name \<longleftrightarrow>
     name \<noteq> [] \<and>
     (\<forall>c\<in>set name. c \<notin> set [CHR 0x09, CHR 0x0A, CHR 0x0C, CHR 0x0D, CHR 0x20, CHR 0x00,
                                  CHR ''/'', CHR ''='', CHR ''>''])"

fun set_assoc :: "string \<Rightarrow> string \<Rightarrow> (string \<times> string) list \<Rightarrow> (string \<times> string) list" where
  "set_assoc name v [] = [(name, v)]"
| "set_assoc name v ((n, w) # as) =
     (if n = name then (n, v) # as else (n, w) # set_assoc name v as)"

text \<open>\<open>element.setAttribute(name, value)\<close>: the value is converted to a string.\<close>

definition setAttribute :: "string \<Rightarrow> jsval \<Rightarrow> node \<Rightarrow> error + node" where
  "setAttribute name v e =
     (if valid_attribute_name name
      then Inr (Element (localName e) (set_assoc name (toString v) (attributes e)) (children e))
      else Inl InvalidCharacterError)"

text \<open>\<open>element.textContent = value\<close>: all children are replaced by one text node, or by none
  when the text is empty.\<close>

definition set_textContent :: "jsval \<Rightarrow> node \<Rightarrow> node" where
  "set_textContent v e =
     Element (localName e) (attributes e) (if toString v = [] then [] else [Text (toString v)])"

text \<open>
  The element at a path below a node (the empty path is the node itself), and below a list of
  nodes; and the replacement of the element at a path.
\<close>

fun element_below :: "node \<Rightarrow> nat list \<Rightarrow> node option" where
  "element_below (Text s) p = None"
| "element_below (Element t a ch) [] = Some (Element t a ch)"
| "element_below (Element t a ch) (i # p) =
     (if i < length ch then element_below (ch ! i) p else None)"

definition element_at :: "node list \<Rightarrow> nat list \<Rightarrow> node option" where
  "element_at ns path =
     (case path of
        [] \<Rightarrow> None
      | i # p \<Rightarrow> if i < length ns then element_below (ns ! i) p else None)"

fun replace_below :: "node \<Rightarrow> nat list \<Rightarrow> node \<Rightarrow> node" where
  "replace_below (Text s) p e = Text s"
| "replace_below (Element t a ch) [] e = e"
| "replace_below (Element t a ch) (i # p) e =
     Element t a (if i < length ch then ch[i := replace_below (ch ! i) p e] else ch)"

definition replace_at :: "node list \<Rightarrow> nat list \<Rightarrow> node \<Rightarrow> node list" where
  "replace_at ns path e =
     (case path of
        [] \<Rightarrow> ns
      | i # p \<Rightarrow> if i < length ns then ns[i := replace_below (ns ! i) p e] else ns)"

text \<open>
  \<open>scope.querySelectorAll('[data-ref]')\<close>: the descendant elements that carry the attribute,
  in document order, each with its path.
\<close>

fun marked_nodes :: "nat \<Rightarrow> node list \<Rightarrow> (nat list \<times> node) list"
  and marked_below :: "node \<Rightarrow> (nat list \<times> node) list" where
  "marked_nodes i [] = []"
| "marked_nodes i (n # ns) =
     map (\<lambda>(p, e). (i # p, e)) (marked_below n) @ marked_nodes (Suc i) ns"
| "marked_below (Text s) = []"
| "marked_below (Element t a ch) =
     (if map_of a ''data-ref'' \<noteq> None then [([], Element t a ch)] else [])
     @ marked_nodes 0 ch"

definition querySelectorAll_data_ref :: "node list \<Rightarrow> (nat list \<times> node) list" where
  "querySelectorAll_data_ref ns = marked_nodes 0 ns"

subsection \<open>Objects, prototypes and the component's state\<close>

datatype sheet = Sheet string

text \<open>
  The instance: its own data properties (among them \<open>$root\<close> and the flags
  \<open>_isInitialized\<close> and \<open>_isConnected\<close>), the subtree under the root, and the adopted style
  sheets of the shadow root (\<open>None\<close> when the component has no shadow root).
\<close>

record obj =
  props :: "string \<rightharpoonup> jsval"
  childNodes :: "node list"
  adoptedStyleSheets :: "sheet list option"

text \<open>
  A property of a prototype: an accessor with an optional getter and an optional setter, or a
  value. The code of getters, setters and hooks is the subclass's; it is a parameter of the
  model.
\<close>

datatype descr =
    Accessor "(obj \<Rightarrow> jsval) option" "(jsval \<Rightarrow> obj \<Rightarrow> obj) option"
  | Value jsval

text \<open>
  The class of the instance: the prototype chain, \<open>Object.getPrototypeOf(this)\<close> first, and
  the methods the base class calls (\<open>None\<close> when \<open>typeof\<close> of the member is not
  \<open>'function'\<close>).
\<close>

record cls =
  chain :: "(string \<rightharpoonup> descr) list"
  onInit :: "(obj \<Rightarrow> obj) option"
  onConnected :: "(obj \<Rightarrow> obj) option"
  onAttributeChanged :: "(string \<Rightarrow> jsval \<Rightarrow> jsval \<Rightarrow> obj \<Rightarrow> obj) option"
  render :: "obj \<Rightarrow> obj"

text \<open>What a spy on the instance records, in order.\<close>

datatype event =
    SetterCall string jsval
  | FieldWrite string jsval
  | Assignment string jsval
  | ChangeHook string jsval jsval
  | InitHook
  | RenderCall
  | ConnectedHook
  | ReferencePass "string option"

record world =
  self :: obj
  log :: "event list"

fun find_descr :: "(string \<rightharpoonup> descr) list \<Rightarrow> string \<Rightarrow> descr option" where
  "find_descr [] p = None"
| "find_descr (proto # rest) p =
     (case proto p of Some d \<Rightarrow> Some d | None \<Rightarrow> find_descr rest p)"

text \<open>\<open>this[p]\<close>: the own property, else the first property of that name on the chain.\<close>

definition get_prop :: "cls \<Rightarrow> obj \<Rightarrow> string \<Rightarrow> jsval" where
  "get_prop c this p =
     (case props this p of
        Some v \<Rightarrow> v
      | None \<Rightarrow>
          (case find_descr (chain c) p of
             Some (Value v) \<Rightarrow> v
           | Some (Accessor (Some g) s) \<Rightarrow> g this
           | _ \<Rightarrow> Undefined))"

text \<open>
  \<open>this[p] = v\<close> in strict code: an own data property is overwritten; otherwise an accessor
  found on the chain has its setter called (\<open>TypeError\<close> if it has none); otherwise an own data
  property is created.
\<close>

definition set_prop :: "cls \<Rightarrow> string \<Rightarrow> jsval \<Rightarrow> world \<Rightarrow> error + world" where
  "set_prop c p v w =
     (case props (self w) p of
        Some _ \<Rightarrow>
          Inr (w\<lparr>self := (self w)\<lparr>props := (props (self w))(p \<mapsto> v)\<rparr>, log := log w @ [FieldWrite p v]\<rparr>)
      | None \<Rightarrow>
          (case find_descr (chain c) p of
             Some (Accessor g (Some setter)) \<Rightarrow>
               Inr (w\<lparr>self := setter v (self w), log := log w @ [SetterCall p v]\<rparr>)
           | Some (Accessor g None) \<Rightarrow> Inl TypeError
           | _ \<Rightarrow>
               Inr (w\<lparr>self := (self w)\<lparr>props := (props (self w))(p \<mapsto> v)\<rparr>,
                      log := log w @ [FieldWrite p v]\<rparr>)))"

fun truthy :: "jsval \<Rightarrow> bool" where
  "truthy Undefined = False"
| "truthy Null = False"
| "truthy (Bool b) = b"
| "truthy (Str s) = (s \<noteq> [])"
| "truthy (Object tag) = True"


subsection \<open>The Reference Pass\<close>

text \<open>
  One companion attribute of an empty-valued marker. \<open>name\<close> is the name of an attribute of the
  snapshot \<^verbatim>\<open>[...element.attributes].filter(attr => attr.name.startsWith('data-ref-'))\<close>; its
  value is read when its turn comes (\<open>attr.value\<close> is live), and attributes are never removed
  during the pass.
  \<^verbatim>\<open>
  const key = attr.name.replace('data-ref-', '')
  const prop = attr.value
  const value = this[prop]
  if (value !== undefined) { element.setAttribute(key, value) }\<close>
\<close>

definition refresh_companion :: "cls \<Rightarrow> obj \<Rightarrow> string \<Rightarrow> node \<Rightarrow> error + node" where
  "refresh_companion c this name e =
     (case getAttribute e name of
        None \<Rightarrow> Inr e
      | Some prop \<Rightarrow>
          (let key = replace_first ''data-ref-'' [] name;
               v = get_prop c this prop
           in if v \<noteq> Undefined then setAttribute key v e else Inr e))"

fun refresh_companions :: "cls \<Rightarrow> obj \<Rightarrow> string list \<Rightarrow> node \<Rightarrow> error + node" where
  "refresh_companions c this [] e = Inr e"
| "refresh_companions c this (name # names) e =
     (case refresh_companion c this name e of
        Inl x \<Rightarrow> Inl x
      | Inr e' \<Rightarrow> refresh_companions c this names e')"

text \<open>
  The body of \<open>references.forEach(element => ...)\<close> in \<open>updateReferences(changedAttribute)\<close>,
  for one element.
  \<^verbatim>\<open>
  const property = element.getAttribute('data-ref')
  if (property === '') { ...companions...; return }
  if (!property || (changedAttribute && property !== changedAttribute)) return
  const value = this[property]
  if (value == null) return
  if (element.localName === 'img') {
    element.setAttribute('data-value', value); element.setAttribute('src', value)
  } else {
    element.setAttribute('data-value', value); element.textContent = value
  }\<close>
  \<open>changedAttribute\<close> is a string or \<open>null\<close> (\<open>None\<close>); the empty string is falsy.
\<close>

definition write_value :: "jsval \<Rightarrow> node \<Rightarrow> error + node" where
  "write_value v e =
     (if localName e = ''img'' then
        (case setAttribute ''data-value'' v e of
           Inl x \<Rightarrow> Inl x
         | Inr e1 \<Rightarrow> setAttribute ''src'' v e1)
      else
        (case setAttribute ''data-value'' v e of
           Inl x \<Rightarrow> Inl x
         | Inr e1 \<Rightarrow> Inr (set_textContent v e1)))"

definition filtered_out :: "string option \<Rightarrow> string \<Rightarrow> bool" where
  "filtered_out changedAttribute property =
     (case changedAttribute of None \<Rightarrow> False | Some k \<Rightarrow> k \<noteq> [] \<and> property \<noteq> k)"

definition update_marker :: "cls \<Rightarrow> obj \<Rightarrow> string option \<Rightarrow> node \<Rightarrow> error + node" where
  "update_marker c this changedAttribute e =
     (case getAttribute e ''data-ref'' of
        None \<Rightarrow> Inr e
      | Some property \<Rightarrow>
          if property = [] then
            refresh_companions c this
              (filter (prefix ''data-ref-'') (map fst (attributes e))) e
          else if filtered_out changedAttribute property then Inr e
          else
            (let v = get_prop c this property
             in if v = Undefined \<or> v = Null then Inr e else write_value v e))"

text \<open>The variant without companion attributes: an empty \<open>data-ref\<close> is skipped.\<close>

definition update_marker_plain :: "cls \<Rightarrow> obj \<Rightarrow> string option \<Rightarrow> node \<Rightarrow> error + node" where
  "update_marker_plain c this changedAttribute e =
     (case getAttribute e ''data-ref'' of
        None \<Rightarrow> Inr e
      | Some property \<Rightarrow>
          if property = [] \<or> filtered_out changedAttribute property then Inr e
          else
            (let v = get_prop c this property
             in if v = Undefined \<or> v = Null then Inr e else write_value v e))"

text \<open>
  \<open>references.forEach\<close> over the elements found before the loop. An element still in the tree
  is read and written at its path; an element that an earlier text write has removed from the
  tree is still processed (it can still raise), with no effect on the tree.
\<close>

fun update_each ::
  "(obj \<Rightarrow> string option \<Rightarrow> node \<Rightarrow> error + node) \<Rightarrow> string option \<Rightarrow>
   (nat list \<times> node) list \<Rightarrow> obj \<Rightarrow> error + obj" where
  "update_each upd changedAttribute [] this = Inr this"
| "update_each upd changedAttribute ((path, found) # refs) this =
     (case element_at (childNodes this) path of
        Some e \<Rightarrow>
          (case upd this changedAttribute e of
             Inl x \<Rightarrow> Inl x
           | Inr e' \<Rightarrow>
               update_each upd changedAttribute refs
                 (this\<lparr>childNodes := replace_at (childNodes this) path e'\<rparr>))
      | None \<Rightarrow>
          (case upd this changedAttribute found of
             Inl x \<Rightarrow> Inl x
           | Inr e' \<Rightarrow> update_each upd changedAttribute refs this))"

definition updateReferences :: "cls \<Rightarrow> string option \<Rightarrow> world \<Rightarrow> error + world" where
  "updateReferences c changedAttribute w =
     (case update_each (update_marker c) changedAttribute
             (querySelectorAll_data_ref (childNodes (self w))) (self w) of
        Inl x \<Rightarrow> Inl x
      | Inr this' \<Rightarrow> Inr (w\<lparr>self := this', log := log w @ [ReferencePass changedAttribute]\<rparr>))"

definition updateReferences_plain :: "cls \<Rightarrow> string option \<Rightarrow> world \<Rightarrow> error + world" where
  "updateReferences_plain c changedAttribute w =
     (case update_each (update_marker_plain c) changedAttribute
             (querySelectorAll_data_ref (childNodes (self w))) (self w) of
        Inl x \<Rightarrow> Inl x
      | Inr this' \<Rightarrow> Inr (w\<lparr>self := this', log := log w @ [ReferencePass changedAttribute]\<rparr>))"

subsection \<open>Attribute reflection\<close>

text \<open>\<^verbatim>\<open>name.replace(/-([a-z])/g, (_, char) => char.toUpperCase())\<close>\<close>

definition upper_of :: "char \<Rightarrow> char option" where
  "upper_of c = map_of (zip ''abcdefghijklmnopqrstuvwxyz'' ''ABCDEFGHIJKLMNOPQRSTUVWXYZ'') c"

fun camelCase :: "string \<Rightarrow> string" where
  "camelCase (c # d # s) =
     (if c = CHR ''-'' then
        (case upper_of d of Some u \<Rightarrow> u # camelCase s | None \<Rightarrow> c # camelCase (d # s))
      else c # camelCase (d # s))"
| "camelCase s = s"

text \<open>
  \<^verbatim>\<open>Object.getOwnPropertyDescriptor(Object.getPrototypeOf(this), name)?.set\<close>: the setter of an
  own accessor property of the first prototype.
\<close>

definition own_setter :: "cls \<Rightarrow> string \<Rightarrow> (jsval \<Rightarrow> obj \<Rightarrow> obj) option" where
  "own_setter c name =
     (case chain c of
        [] \<Rightarrow> None
      | proto # _ \<Rightarrow> (case proto name of Some (Accessor g s) \<Rightarrow> s | _ \<Rightarrow> None))"

definition call_hook :: "event \<Rightarrow> (obj \<Rightarrow> obj) option \<Rightarrow> world \<Rightarrow> world" where
  "call_hook ev h w =
     (case h of None \<Rightarrow> w | Some f \<Rightarrow> w\<lparr>self := f (self w), log := log w @ [ev]\<rparr>)"

text \<open>
  \<^verbatim>\<open>
  attributeChangedCallback(name, oldValue, newValue) {
    if (oldValue === newValue) return
    const setter = Object.getOwnPropertyDescriptor(Object.getPrototypeOf(this), name)?.set;
    if (setter) { setter.call(this, newValue); }
    else {
      const propName = name.replace(/-([a-z])/g, (_, char) => char.toUpperCase());
      this[propName] = newValue;
    }
    if (typeof this.onAttributeChanged === 'function') {
      this.onAttributeChanged(name, oldValue, newValue)
    }
    if (this._isConnected) this.updateReferences(name);
  }\<close>
\<close>

definition reflect :: "cls \<Rightarrow> string \<Rightarrow> string \<Rightarrow> jsval \<Rightarrow> world \<Rightarrow> error + world" where
  "reflect c name propName newValue w =
     (case own_setter c name of
        Some setter \<Rightarrow>
          Inr (w\<lparr>self := setter newValue (self w), log := log w @ [SetterCall name newValue]\<rparr>)
      | None \<Rightarrow>
          set_prop c propName newValue (w\<lparr>log := log w @ [Assignment propName newValue]\<rparr>))"

definition attributeChangedCallback ::
  "cls \<Rightarrow> string \<Rightarrow> jsval \<Rightarrow> jsval \<Rightarrow> world \<Rightarrow> error + world" where
  "attributeChangedCallback c name oldValue newValue w =
     (if oldValue = newValue then Inr w
      else
        (case reflect c name (camelCase name) newValue w of
           Inl x \<Rightarrow> Inl x
         | Inr w1 \<Rightarrow>
             (let w2 = call_hook (ChangeHook name oldValue newValue)
                         (map_option (\<lambda>h. h name oldValue newValue) (onAttributeChanged c)) w1
              in if truthy (get_prop c (self w2) ''_isConnected'')
                 then updateReferences c (Some name) w2
                 else Inr w2)))"

text \<open>
  The variant that assigns under the attribute name itself, calls no change hook, and runs
  the Reference Pass without companion attributes:
  \<^verbatim>\<open>
    if (setter) { setter.call(this, newValue); } else { this[name] = newValue; }
    // if (typeof this.onAttributeChanged === 'function') { ... }
    if (this._isConnected) this.updateReferences(name);\<close>
\<close>

definition attributeChangedCallback_plain ::
  "cls \<Rightarrow> string \<Rightarrow> jsval \<Rightarrow> jsval \<Rightarrow> world \<Rightarrow> error + world" where
  "attributeChangedCallback_plain c name oldValue newValue w =
     (if oldValue = newValue then Inr w
      else
        (case reflect c name name newValue w of
           Inl x \<Rightarrow> Inl x
         | Inr w1 \<Rightarrow>
             if truthy (get_prop c (self w1) ''_isConnected'')
             then updateReferences_plain c (Some name) w1
             else Inr w1))"

subsection \<open>Connection\<close>

text \<open>
  \<^verbatim>\<open>
  connectedCallback() {
    this._isInitialized = true
    if (typeof this.onInit === 'function') this.onInit()
    this.render()
    this.updateReferences()
    this._isConnected = true
    if (typeof this.onConnected === 'function') this.onConnected()
  }\<close>
\<close>

definition call_render :: "cls \<Rightarrow> world \<Rightarrow> world" where
  "call_render c w = w\<lparr>self := render c (self w), log := log w @ [RenderCall]\<rparr>"

definition connectedCallback :: "cls \<Rightarrow> world \<Rightarrow> error + world" where
  "connectedCallback c w =
     (case set_prop c ''_isInitialized'' (Bool True) w of
        Inl x \<Rightarrow> Inl x
      | Inr w1 \<Rightarrow>
          (case updateReferences c None (call_render c (call_hook InitHook (onInit c) w1)) of
             Inl x \<Rightarrow> Inl x
           | Inr w4 \<Rightarrow>
               (case set_prop c ''_isConnected'' (Bool True) w4 of
                  Inl x \<Rightarrow> Inl x
                | Inr w5 \<Rightarrow> Inr (call_hook ConnectedHook (onConnected c) w5))))"

text \<open>
  The earlier variant:
  \<^verbatim>\<open>
  connectedCallback() {
    this._isConnected = true
    if (typeof this.onConnected === 'function') this.onConnected()
    this.render()
    this.updateReferences()
  }\<close>
\<close>

definition connectedCallback_early :: "cls \<Rightarrow> world \<Rightarrow> error + world" where
  "connectedCallback_early c w =
     (case set_prop c ''_isConnected'' (Bool True) w of
        Inl x \<Rightarrow> Inl x
      | Inr w1 \<Rightarrow>
          updateReferences_plain c None (call_render c (call_hook ConnectedHook (onConnected c) w1)))"

subsection \<open>Style adoption\<close>

text \<open>The argument of \<open>decorate\<close>: one style text or an array of style texts.\<close>

datatype css = CssText string | CssArray "string list"

text \<open>
  \<^verbatim>\<open>
  decorate(css) {
    const cssArray = Array.isArray(css) ? css : [css]
    const newSheets = cssArray.map(text => {
      const sheet = new CSSStyleSheet(); sheet.replaceSync(text); return sheet })
    this.shadowRoot.adoptedStyleSheets =
      [...(this.shadowRoot.adoptedStyleSheets || []), ...newSheets]
  }\<close>
  Without a shadow root, \<open>this.shadowRoot\<close> is \<open>null\<close> and the last statement raises.
\<close>

definition decorate :: "css \<Rightarrow> obj \<Rightarrow> error + obj" where
  "decorate css this =
     (let cssArray = (case css of CssArray texts \<Rightarrow> texts | CssText text \<Rightarrow> [text]);
          newSheets = map Sheet cssArray
      in case adoptedStyleSheets this of
           None \<Rightarrow> Inl TypeError
         | Some adopted \<Rightarrow> Inr (this\<lparr>adoptedStyleSheets := Some (adopted @ newSheets)\<rparr>))"

text \<open>
  The earlier variant:
  \<^verbatim>\<open>
  decorate(cssText) {
    const sheet = new CSSStyleSheet()
    sheet.replaceSync(cssText)
    this.shadowRoot.adoptedStyleSheets = [sheet]
  }\<close>
\<close>

definition decorate_single :: "string \<Rightarrow> obj \<Rightarrow> error + obj" where
  "decorate_single cssText this =
     (case adoptedStyleSheets this of
        None \<Rightarrow> Inl TypeError
      | Some adopted \<Rightarrow> Inr (this\<lparr>adoptedStyleSheets := Some [Sheet cssText]\<rparr>))"

text \<open>
  The constructor, from the static \<open>useShadow\<close> (default \<open>true\<close>) and \<open>cssText\<close> (default
  \<open>null\<close>). The class field \<open>$root = null\<close> makes \<open>$root\<close> an own property of the instance,
  which the constructor then sets to the root: the shadow root, or the element itself.
  \<^verbatim>\<open>
    if (useShadow) { this.attachShadow({ mode: 'open' }); this.$root = this.shadowRoot }
    else { this.$root = this }
    if (useShadow && cssText) { this.decorate(cssText) }\<close>
\<close>

definition css_truthy :: "css option \<Rightarrow> bool" where
  "css_truthy cssText =
     (case cssText of None \<Rightarrow> False | Some (CssText t) \<Rightarrow> t \<noteq> [] | Some (CssArray ts) \<Rightarrow> True)"

definition construct :: "bool option \<Rightarrow> css option \<Rightarrow> error + obj" where
  "construct useShadowStatic cssTextStatic =
     (let useShadow = (case useShadowStatic of None \<Rightarrow> True | Some b \<Rightarrow> b);
          this = \<lparr>props = [''$root'' \<mapsto>
                            (if useShadow then Object ''ShadowRoot'' else Object ''HTMLElement'')],
                  childNodes = [],
                  adoptedStyleSheets = (if useShadow then Some [] else None)\<rparr>
      in if useShadow \<and> css_truthy cssTextStatic
         then (case cssTextStatic of Some css \<Rightarrow> decorate css this | None \<Rightarrow> Inr this)
         else Inr this)"

section \<open>Notions used in the statements\<close>

text \<open>The entity substitution of a single character, as one pass.\<close>

definition escape_char :: "char \<Rightarrow> string" where
  "escape_char c =
     (if c = CHR ''&'' then ''&amp;''
      else if c = CHR ''<'' then ''&lt;''
      else if c = CHR ''>'' then ''&gt;''
      else if c = CHR 0x22 then ''&quot;''
      else if c = CHR 0x27 then ''&#039;''
      else [c])"

text \<open>
  Every \<open><\<close> of a text opens a marker span or closes one: the text holds no other tag.
\<close>

fun only_marker_tags :: "string \<Rightarrow> bool" where
  "only_marker_tags [] = True"
| "only_marker_tags (c # s) =
     ((c = CHR ''<'' \<longrightarrow> prefix ''<span data-ref=\"'' (c # s) \<or> prefix ''</span>'' (c # s))
      \<and> only_marker_tags s)"




text \<open>No attribute marker of the text is directly followed by \<open>="({\<close>.\<close>

fun delimited :: "string \<Rightarrow> bool" where
  "delimited [] = True"
| "delimited (c # s) =
     ((case match_attr (c # s) of
         Some (attr, var, rest) \<Rightarrow> \<not> prefix ''=\"({'' rest
       | None \<Rightarrow> True) \<and> delimited s)"


text \<open>A sequence of \<open>decorate\<close> calls, stopping at the first that raises.\<close>

fun decorate_all :: "css list \<Rightarrow> obj \<Rightarrow> error + obj" where
  "decorate_all [] this = Inr this"
| "decorate_all (css # calls) this =
     (case decorate css this of Inl x \<Rightarrow> Inl x | Inr this' \<Rightarrow> decorate_all calls this')"

definition sheets_of :: "css \<Rightarrow> sheet list" where
  "sheets_of css = map Sheet (case css of CssArray texts \<Rightarrow> texts | CssText text \<Rightarrow> [text])"


section \<open>Properties of the escaping variant\<close>

lemma replace_char_Nil [simp]: "replace_char c r [] = []"
  by (simp add: replace_char_def)

lemma replace_char_Cons [simp]:
  "replace_char c r (x # s) = (if x = c then r else [x]) @ replace_char c r s"
  by (simp add: replace_char_def)

lemma replace_char_append [simp]:
  "replace_char c r (s @ t) = replace_char c r s @ replace_char c r t"
  by (simp add: replace_char_def)

lemma escapeHTML_chars: "escapeHTML (Str s) = concat (map escape_char s)"
  unfolding escapeHTML_def by (induction s) (simp_all add: escape_char_def)




lemma trim_id:
  "s = [] \<or> (\<not> is_space (hd s) \<and> \<not> is_space (last s)) \<Longrightarrow> trim s = s"
proof (cases s)
  case Nil
  then show ?thesis by (simp add: trim_def)
next
  case (Cons a t)
  assume "s = [] \<or> (\<not> is_space (hd s) \<and> \<not> is_space (last s))"
  with Cons have h: "\<not> is_space a" and l: "\<not> is_space (last s)" by auto
  from Cons h have 1: "dropWhile is_space s = s" by simp
  from Cons have "rev s \<noteq> []" by simp
  then obtain b u where r: "rev s = b # u" by (cases "rev s") auto
  with Cons have "b = last s" by (metis hd_rev list.sel(1))
  with l have "\<not> is_space b" by simp
  then have "dropWhile is_space (b # u) = b # u" by simp
  with r have "dropWhile is_space (rev s) = rev s" by simp
  with 1 show ?thesis by (simp add: trim_def)
qed



lemma escapeHTML_append:
  "escapeHTML (Str (s @ t)) = escapeHTML (Str s) @ escapeHTML (Str t)"
  by (simp add: escapeHTML_chars)

lemma escapeHTML_Nil_iff: "escapeHTML (Str s) = [] \<longleftrightarrow> s = []"
  by (cases s) (auto simp: escapeHTML_chars escape_char_def)

lemma escape_char_no_brace: "c \<noteq> CHR ''}'' \<Longrightarrow> CHR ''}'' \<notin> set (escape_char c)"
  by (auto simp: escape_char_def)

lemma escapeHTML_no_brace: "CHR ''}'' \<notin> set s \<Longrightarrow> CHR ''}'' \<notin> set (escapeHTML (Str s))"
  by (induction s) (auto simp: escapeHTML_chars escape_char_def)

lemma match_marker_hit:
  assumes "k \<noteq> []" and "CHR ''}'' \<notin> set k"
  shows "match_marker (''({'' @ k @ ''})'' @ u) = Some (k, u)"
proof -
  have t: "takeWhile (\<lambda>c. c \<noteq> CHR ''}'') (k @ CHR ''}'' # CHR '')'' # u) = k"
    using assms(2) by (induction k) auto
  have d: "dropWhile (\<lambda>c. c \<noteq> CHR ''}'') (k @ CHR ''}'' # CHR '')'' # u) = CHR ''}'' # CHR '')'' # u"
    using assms(2) by (induction k) auto
  show ?thesis
    using assms(1) by (simp add: match_marker_def t d)
qed

lemma match_marker_needs_brace:
  "match_marker s = Some (k, u) \<Longrightarrow> CHR ''{'' \<in> set s"
  by (auto simp: match_marker_def split: list.splits if_splits)

lemma replace_markers_no_brace:
  "CHR ''{'' \<notin> set s \<Longrightarrow> replace_markers s = s"
proof (induction s)
  case Nil
  then show ?case by simp
next
  case (Cons c s)
  then have "match_marker (c # s) = None"
    using match_marker_needs_brace[of "c # s"] by (cases "match_marker (c # s)") auto
  with Cons show ?case by simp
qed



lemma only_marker_tags_skip:
  "CHR ''<'' \<notin> set xs \<Longrightarrow> only_marker_tags (xs @ ys) = only_marker_tags ys"
  by (induction xs) auto

lemma only_marker_tags_plain: "CHR ''<'' \<notin> set xs \<Longrightarrow> only_marker_tags xs"
  using only_marker_tags_skip[of xs "[]"] by simp





lemma match_marker_head:
  "match_marker s = Some (k, u) \<Longrightarrow> \<exists>t. s = CHR ''('' # CHR ''{'' # t"
  by (auto simp: match_marker_def split: list.splits if_splits)

lemma replace_markers_skip:
  "CHR ''{'' \<notin> set a \<Longrightarrow> s = [] \<or> hd s \<noteq> CHR ''{'' \<Longrightarrow>
   replace_markers (a @ s) = a @ replace_markers s"
proof (induction a)
  case Nil
  then show ?case by simp
next
  case (Cons c a)
  have "match_marker (c # a @ s) = None"
  proof (cases "match_marker (c # a @ s)")
    case None then show ?thesis .
  next
    case (Some p)
    then obtain t where "c # a @ s = CHR ''('' # CHR ''{'' # t"
      using match_marker_head[of "c # a @ s" "fst p" "snd p"] by auto
    then have "a @ s = CHR ''{'' # t" by simp
    with Cons.prems show ?thesis by (cases a) auto
  qed
  with Cons show ?case by simp
qed



















text \<open>
  Claim C10. \<open>escapeHTML\<close> leaves the placeholder characters \<open>( { } )\<close> as they are, and the
  marker rewrite runs over the concatenated text after escaping. So an interpolated value of
  the form \<open>({x})\<close> (\<open>x\<close> non-empty, without \<open>}\<close>) is rewritten into a marker span: data
  coming from a dynamic value creates a reference marker. For the value \<open>({x})\<close> the markup
  is \<open><span data-ref="x">x</span>\<close> (the witness).
\<close>

theorem html_esc_value_creates_marker:
  assumes "x \<noteq> []" and "CHR ''}'' \<notin> set x"
    and "CHR ''{'' \<notin> set a" and "CHR ''{'' \<notin> set b"
  shows "escapeHTML (Str (''({'' @ x @ ''})'')) = ''({'' @ escapeHTML (Str x) @ ''})''
       \<and> html_esc [a, b] [Str (''({'' @ x @ ''})'')] =
           Inr (trim (a @ marker_span (escapeHTML (Str x)) @ b))"
proof -
  let ?k = "escapeHTML (Str x)"
  have e: "escapeHTML (Str (''({'' @ x @ ''})'')) = ''({'' @ ?k @ ''})''"
    by (simp add: escapeHTML_chars escape_char_def)
  have k: "?k \<noteq> []" "CHR ''}'' \<notin> set ?k"
    using assms(1,2) by (simp_all add: escapeHTML_Nil_iff escapeHTML_no_brace)
  have "replace_markers (a @ ''({'' @ ?k @ ''})'' @ b) = a @ replace_markers (''({'' @ ?k @ ''})'' @ b)"
    using assms(3) by (intro replace_markers_skip) simp_all
  also have "replace_markers (''({'' @ ?k @ ''})'' @ b) = marker_span ?k @ replace_markers b"
    using match_marker_hit[OF k, of b] by simp
  also have "replace_markers b = b"
    using assms(4) by (rule replace_markers_no_brace)
  finally have r: "replace_markers (a @ ''({'' @ ?k @ ''})'' @ b) = a @ marker_span ?k @ b" .
  have "html_esc [a, b] [Str (''({'' @ x @ ''})'')] =
          Inr (trim (replace_markers (a @ escapeHTML (Str (''({'' @ x @ ''})'')) @ b)))"
    by (simp add: html_esc_def tplAt_def)
  with e r show ?thesis by simp
qed

theorem html_esc_value_creates_marker_witness:
  "''x'' \<noteq> [] \<and> CHR ''}'' \<notin> set ''x'' \<and> CHR ''{'' \<notin> set ''''
   \<and> escapeHTML (Str ''({x})'') = ''({x})''
   \<and> html_esc ['''', ''''] [Str ''({x})''] = Inr ''<span data-ref=\"x\">x</span>''"
proof -
  have e: "escapeHTML (Str ''x'') = ''x''" by (simp add: escapeHTML_def)
  have t: "trim ''<span data-ref=\"x\">x</span>'' = ''<span data-ref=\"x\">x</span>''"
    by (rule trim_id) (simp add: is_space_def)
  from html_esc_value_creates_marker[of "''x''" "''''" "''''"] e t
  show ?thesis by (simp add: marker_span_def)
qed

section \<open>Properties of the rewriting variant\<close>

subsection \<open>The regular expressions\<close>










lemma match_content_SomeD:
  assumes "match_content s = Some (k, u)"
  shows "s = ''({'' @ k @ ''})'' @ u" and "k \<noteq> []" and "\<forall>c\<in>set k. is_ident_char c"
proof -
  from assms obtain t where s: "s = ''({'' @ t" and k: "k = takeWhile is_ident_char t"
    and ne: "k \<noteq> []" and d: "dropWhile is_ident_char t = ''})'' @ u"
    by (auto simp: match_content_def split: if_splits list.splits)
  have "t = takeWhile is_ident_char t @ dropWhile is_ident_char t" by simp
  with s k d show "s = ''({'' @ k @ ''})'' @ u" by simp
  show "k \<noteq> []" by fact
  show "\<forall>c\<in>set k. is_ident_char c" unfolding k by (auto dest: set_takeWhileD)
qed





lemma match_content_suffix: "match_content q = Some (k, u) \<Longrightarrow> suffix u q"
  by (drule match_content_SomeD(1)) (simp add: suffix_def)




subsection \<open>The first occurrence of a matched text\<close>

















subsection \<open>The single-pass rewrite of a concatenation\<close>


















subsection \<open>The markup around a marker or a placeholder\<close>









subsection \<open>The playground's template and the claims\<close>

text \<open>
  The playground's template: the attribute marker on \<^verbatim>\<open>title\<close> is rewritten in place, the
  malformed \<^verbatim>\<open>email="({})"\<close> stays as written, and the content marker becomes an empty
  marker span. Its one attribute marker is followed by a space, so the text is delimited.
\<close>

lemma UserCard_render_markup:
  "html_raw UserCard_templates [Str ''Ada''] =
     ''<div class=\"user-card\" title=\"\" data-ref-title=\"name\" data-ref email=\"({})\">''
      @ CHR 0x0A # ''            <h2>Ada</h2>''
      @ CHR 0x0A # ''            <p><span data-ref=\"email\"></span></p>''
      @ CHR 0x0A # ''            <div class=\"user-card__button-box\">''
      @ CHR 0x0A # ''                <button data-id=\"update-name\">Update name</button>''
      @ CHR 0x0A # ''                <button data-id=\"update-email\">Update email</button>''
      @ CHR 0x0A # ''            </div>''
      @ CHR 0x0A # ''            <input data-id=\"input\" type=\"text\" placeholder=\"type here...\">''
      @ CHR 0x0A # ''        </div>''"
  unfolding UserCard_templates_def by code_simp

lemma UserCard_delimited:
  "delimited (interpolate_raw UserCard_templates [Str ''Ada''])"
  unfolding UserCard_templates_def by code_simp







section \<open>Properties of the component\<close>

subsection \<open>Lifecycle\<close>

lemma updateReferences_log:
  "updateReferences c k w = Inr w' \<Longrightarrow> log w' = log w @ [ReferencePass k]"
  by (auto simp: updateReferences_def split: sum.splits)

lemma updateReferences_plain_log:
  "updateReferences_plain c k w = Inr w' \<Longrightarrow> log w' = log w @ [ReferencePass k]"
  by (auto simp: updateReferences_plain_def split: sum.splits)

lemma set_prop_fresh:
  "find_descr (chain c) p = None \<Longrightarrow>
   set_prop c p v w =
     Inr (w\<lparr>self := (self w)\<lparr>props := (props (self w))(p \<mapsto> v)\<rparr>, log := log w @ [FieldWrite p v]\<rparr>)"
  by (simp add: set_prop_def split: option.splits)

lemma call_hook_log:
  "log (call_hook ev h w) = log w @ (case h of None \<Rightarrow> [] | Some f \<Rightarrow> [ev])"
  by (simp add: call_hook_def split: option.splits)

lemma call_render_log: "log (call_render c w) = log w @ [RenderCall]"
  by (simp add: call_render_def)

text \<open>
  Claim C9 as stated fails on the earlier variant of \<open>connectedCallback\<close>: it marks the
  component connected and calls the connected hook before rendering, and has no initialized
  flag and no init hook.
\<close>

theorem connectedCallback_early_order:
  "(case connectedCallback_early
           \<lparr>chain = [Map.empty], onInit = Some id, onConnected = Some id,
            onAttributeChanged = None, render = id\<rparr>
           \<lparr>self = \<lparr>props = Map.empty, childNodes = [], adoptedStyleSheets = Some []\<rparr>, log = []\<rparr>
    of Inl x \<Rightarrow> [] | Inr w \<Rightarrow> log w)
   = [FieldWrite ''_isConnected'' (Bool True), ConnectedHook, RenderCall, ReferencePass None]"
  by (simp add: connectedCallback_early_def set_prop_def call_hook_def call_render_def
      updateReferences_plain_def querySelectorAll_data_ref_def)

lemma set_prop_log:
  assumes "set_prop c p v w = Inr w'"
  shows "log w' = log w @ [FieldWrite p v] \<or> log w' = log w @ [SetterCall p v]"
  using assms by (auto simp: set_prop_def split: option.splits descr.splits)

text \<open>
  Claim C9, amended. A call of the current \<open>connectedCallback\<close> that returns has performed
  exactly these steps, in this order: the assignment of \<open>true\<close> to \<open>_isInitialized\<close> (a field
  write, or the call of a setter of that name if the class defines one), the init hook if
  there is one, \<open>render\<close>, the unfiltered Reference Pass, the assignment of \<open>true\<close> to
  \<open>_isConnected\<close>, the connected hook if there is one. A call of the earlier variant that
  returns has instead assigned \<open>_isConnected\<close>, called the connected hook if there is one,
  called \<open>render\<close> and run the unfiltered pass, in this order; it has no initialized flag and
  no init hook.
\<close>

theorem connectedCallback_order:
  "(\<forall>w'. connectedCallback c w = Inr w' \<longrightarrow>
      (\<exists>i k. log w' = log w @ [i]
                 @ (case onInit c of None \<Rightarrow> [] | Some h \<Rightarrow> [InitHook])
                 @ [RenderCall, ReferencePass None, k]
                 @ (case onConnected c of None \<Rightarrow> [] | Some h \<Rightarrow> [ConnectedHook])
         \<and> (i = FieldWrite ''_isInitialized'' (Bool True)
              \<or> i = SetterCall ''_isInitialized'' (Bool True))
         \<and> (k = FieldWrite ''_isConnected'' (Bool True)
              \<or> k = SetterCall ''_isConnected'' (Bool True))))
   \<and> (\<forall>w'. connectedCallback_early c w = Inr w' \<longrightarrow>
      (\<exists>k. log w' = log w @ [k]
                 @ (case onConnected c of None \<Rightarrow> [] | Some h \<Rightarrow> [ConnectedHook])
                 @ [RenderCall, ReferencePass None]
         \<and> (k = FieldWrite ''_isConnected'' (Bool True)
              \<or> k = SetterCall ''_isConnected'' (Bool True))))"
proof (intro conjI allI impI)
  fix w' assume r: "connectedCallback c w = Inr w'"
  then obtain w1 where s1: "set_prop c ''_isInitialized'' (Bool True) w = Inr w1"
    by (auto simp: connectedCallback_def split: sum.splits)
  let ?w3 = "call_render c (call_hook InitHook (onInit c) w1)"
  from r s1 obtain w4 where s4: "updateReferences c None ?w3 = Inr w4"
    by (auto simp: connectedCallback_def split: sum.splits)
  from r s1 s4 obtain w5 where s5: "set_prop c ''_isConnected'' (Bool True) w4 = Inr w5"
    and w': "w' = call_hook ConnectedHook (onConnected c) w5"
    by (auto simp: connectedCallback_def split: sum.splits)
  from set_prop_log[OF s1] obtain i where i: "log w1 = log w @ [i]"
    "i = FieldWrite ''_isInitialized'' (Bool True) \<or> i = SetterCall ''_isInitialized'' (Bool True)"
    by blast
  from set_prop_log[OF s5] obtain k where k: "log w5 = log w4 @ [k]"
    "k = FieldWrite ''_isConnected'' (Bool True) \<or> k = SetterCall ''_isConnected'' (Bool True)"
    by blast
  have l3: "log ?w3 = log w1 @ (case onInit c of None \<Rightarrow> [] | Some h \<Rightarrow> [InitHook]) @ [RenderCall]"
    by (simp add: call_render_log call_hook_log)
  from updateReferences_log[OF s4] have l4: "log w4 = log ?w3 @ [ReferencePass None]" .
  have "log w' = log w5 @ (case onConnected c of None \<Rightarrow> [] | Some h \<Rightarrow> [ConnectedHook])"
    unfolding w' by (rule call_hook_log)
  with i(1) k(1) l3 l4
  have "log w' = log w @ [i]
                 @ (case onInit c of None \<Rightarrow> [] | Some h \<Rightarrow> [InitHook])
                 @ [RenderCall, ReferencePass None, k]
                 @ (case onConnected c of None \<Rightarrow> [] | Some h \<Rightarrow> [ConnectedHook])"
    by simp
  with i(2) k(2)
  show "\<exists>i k. log w' = log w @ [i]
                 @ (case onInit c of None \<Rightarrow> [] | Some h \<Rightarrow> [InitHook])
                 @ [RenderCall, ReferencePass None, k]
                 @ (case onConnected c of None \<Rightarrow> [] | Some h \<Rightarrow> [ConnectedHook])
         \<and> (i = FieldWrite ''_isInitialized'' (Bool True)
              \<or> i = SetterCall ''_isInitialized'' (Bool True))
         \<and> (k = FieldWrite ''_isConnected'' (Bool True)
              \<or> k = SetterCall ''_isConnected'' (Bool True))"
    by blast
next
  fix w' assume r: "connectedCallback_early c w = Inr w'"
  then obtain w1 where s1: "set_prop c ''_isConnected'' (Bool True) w = Inr w1"
    by (auto simp: connectedCallback_early_def split: sum.splits)
  let ?w3 = "call_render c (call_hook ConnectedHook (onConnected c) w1)"
  from r s1 have s4: "updateReferences_plain c None ?w3 = Inr w'"
    by (auto simp: connectedCallback_early_def split: sum.splits)
  from set_prop_log[OF s1] obtain k where k: "log w1 = log w @ [k]"
    "k = FieldWrite ''_isConnected'' (Bool True) \<or> k = SetterCall ''_isConnected'' (Bool True)"
    by blast
  have l3: "log ?w3 = log w1 @ (case onConnected c of None \<Rightarrow> [] | Some h \<Rightarrow> [ConnectedHook]) @ [RenderCall]"
    by (simp add: call_render_log call_hook_log)
  from updateReferences_plain_log[OF s4] l3 k(1)
  have "log w' = log w @ [k]
                 @ (case onConnected c of None \<Rightarrow> [] | Some h \<Rightarrow> [ConnectedHook])
                 @ [RenderCall, ReferencePass None]" by simp
  with k(2) show "\<exists>k. log w' = log w @ [k]
                 @ (case onConnected c of None \<Rightarrow> [] | Some h \<Rightarrow> [ConnectedHook])
                 @ [RenderCall, ReferencePass None]
         \<and> (k = FieldWrite ''_isConnected'' (Bool True)
              \<or> k = SetterCall ''_isConnected'' (Bool True))" by blast
qed

theorem connectedCallback_order_witness:
  "(case connectedCallback
           \<lparr>chain = [Map.empty], onInit = Some id, onConnected = Some id,
            onAttributeChanged = None,
            render = (\<lambda>this. this\<lparr>childNodes :=
                        [Element ''span'' [(''data-ref'', ''name'')] []]\<rparr>)\<rparr>
           \<lparr>self = \<lparr>props = [''$root'' \<mapsto> Object ''ShadowRoot'', ''name'' \<mapsto> Str ''Ada''],
                    childNodes = [], adoptedStyleSheets = Some []\<rparr>, log = []\<rparr>
    of Inl x \<Rightarrow> None | Inr w \<Rightarrow> Some (log w, childNodes (self w)))
   = Some ([FieldWrite ''_isInitialized'' (Bool True), InitHook, RenderCall, ReferencePass None,
            FieldWrite ''_isConnected'' (Bool True), ConnectedHook],
           [Element ''span'' [(''data-ref'', ''name''), (''data-value'', ''Ada'')] [Text ''Ada'']])"
  using connectedCallback_order[of
      "\<lparr>chain = [Map.empty], onInit = Some id, onConnected = Some id,
        onAttributeChanged = None,
        render = (\<lambda>this. this\<lparr>childNodes :=
                        [Element ''span'' [(''data-ref'', ''name'')] []]\<rparr>)\<rparr>"
      "\<lparr>self = \<lparr>props = [''$root'' \<mapsto> Object ''ShadowRoot'', ''name'' \<mapsto> Str ''Ada''],
                    childNodes = [], adoptedStyleSheets = Some []\<rparr>, log = []\<rparr>",
      THEN conjunct1]
  by (simp add: connectedCallback_def set_prop_def call_hook_def call_render_def
      updateReferences_def querySelectorAll_data_ref_def
      update_marker_def getAttribute_def filtered_out_def element_at_def replace_at_def
      get_prop_def write_value_def setAttribute_def valid_attribute_name_def set_textContent_def)


subsection \<open>Style adoption\<close>

lemma decorate_isolated:
  "adoptedStyleSheets this = Some adopted \<Longrightarrow>
   decorate css this = Inr (this\<lparr>adoptedStyleSheets := Some (adopted @ sheets_of css)\<rparr>)"
  by (simp add: decorate_def sheets_of_def)

lemma decorate_all_isolated:
  "adoptedStyleSheets this = Some adopted \<Longrightarrow>
   decorate_all calls this =
     Inr (this\<lparr>adoptedStyleSheets := Some (adopted @ concat (map sheets_of calls))\<rparr>)"
proof (induction calls arbitrary: this adopted)
  case Nil
  then show ?case by simp
next
  case (Cons css calls)
  let ?this' = "this\<lparr>adoptedStyleSheets := Some (adopted @ sheets_of css)\<rparr>"
  have "adoptedStyleSheets ?this' = Some (adopted @ sheets_of css)" by simp
  from Cons.IH[OF this] decorate_isolated[OF Cons.prems] show ?case by simp
qed

text \<open>
  Claim C8 as stated fails on the earlier variant of \<open>decorate\<close>, which replaces the adopted
  list: after two calls only the second sheet is adopted.
\<close>

theorem decorate_single_replaces:
  "(case decorate_single ''a{}''
           \<lparr>props = Map.empty, childNodes = [], adoptedStyleSheets = Some []\<rparr> of
      Inl x \<Rightarrow> None
    | Inr this1 \<Rightarrow>
        (case decorate_single ''b{}'' this1 of
           Inl x \<Rightarrow> None
         | Inr this2 \<Rightarrow> adoptedStyleSheets this2))
   = Some [Sheet ''b{}'']"
  by (simp add: decorate_single_def)

text \<open>
  Claim C8, amended. On an isolated component (one with a shadow root), the current \<open>decorate\<close>
  compiles its text or texts and appends the sheets to the adopted list, keeping the sheets
  adopted before; any sequence of calls returns and leaves the earlier list followed by the
  sheets of every call, in call order; so two calls with two texts leave both sheets, in call
  order. The earlier variant of \<open>decorate\<close> takes one text and replaces the adopted list by the
  one new sheet.
\<close>

theorem decorate_appends:
  assumes "adoptedStyleSheets this = Some adopted"
  shows "decorate css this =
           Inr (this\<lparr>adoptedStyleSheets := Some (adopted @ sheets_of css)\<rparr>)
       \<and> decorate_all calls this =
           Inr (this\<lparr>adoptedStyleSheets := Some (adopted @ concat (map sheets_of calls))\<rparr>)
       \<and> decorate_all [CssText a, CssText b] this =
           Inr (this\<lparr>adoptedStyleSheets := Some (adopted @ [Sheet a, Sheet b])\<rparr>)
       \<and> decorate_single t this = Inr (this\<lparr>adoptedStyleSheets := Some [Sheet t]\<rparr>)"
  using decorate_isolated[OF assms, of css] decorate_all_isolated[OF assms, of calls]
    decorate_all_isolated[OF assms, of "[CssText a, CssText b]"] assms
  by (simp add: sheets_of_def decorate_single_def)

theorem decorate_appends_witness:
  "construct None None =
     Inr \<lparr>props = [''$root'' \<mapsto> Object ''ShadowRoot''], childNodes = [],
          adoptedStyleSheets = Some []\<rparr>
   \<and> decorate_all [CssText ''a{}'', CssText ''b{}'']
        \<lparr>props = [''$root'' \<mapsto> Object ''ShadowRoot''], childNodes = [],
         adoptedStyleSheets = Some []\<rparr>
      = Inr \<lparr>props = [''$root'' \<mapsto> Object ''ShadowRoot''], childNodes = [],
             adoptedStyleSheets = Some [Sheet ''a{}'', Sheet ''b{}'']\<rparr>"
  using decorate_appends[of "\<lparr>props = [''$root'' \<mapsto> Object ''ShadowRoot''], childNodes = [],
                              adoptedStyleSheets = Some []\<rparr>"
      "[]" "CssText ''a{}''" "[]" "''a{}''" "''b{}''" "[]"]
  by (simp add: construct_def css_truthy_def del: decorate_all.simps)

subsection \<open>Attribute reflection\<close>

lemma call_hook_cases:
  "\<exists>h. log (call_hook ev f w) = log w @ h \<and> (h = [] \<or> h = [ev])"
  by (cases f) (simp_all add: call_hook_def)

text \<open>
  Claim C2 as stated fails when the setter is not an own property of the instance's first
  prototype. With a setter named \<open>user-name\<close> one level further up the chain, the callback takes
  the assignment branch, writes the field \<open>userName\<close> and never calls the setter. With an
  inherited setter named \<open>email\<close>, the assignment branch is taken as well; the setter runs
  only as an effect of the assignment.
\<close>

theorem inherited_setter_not_looked_up:
  "(case attributeChangedCallback
           \<lparr>chain = [Map.empty, [''user-name'' \<mapsto> Accessor None (Some (\<lambda>v this. this))]],
            onInit = None, onConnected = None, onAttributeChanged = None, render = id\<rparr>
           ''user-name'' Null (Str ''Jane'')
           \<lparr>self = \<lparr>props = Map.empty, childNodes = [], adoptedStyleSheets = Some []\<rparr>, log = []\<rparr>
    of Inl x \<Rightarrow> [] | Inr w \<Rightarrow> log w)
   = [Assignment ''userName'' (Str ''Jane''), FieldWrite ''userName'' (Str ''Jane'')]
   \<and> (case attributeChangedCallback
           \<lparr>chain = [Map.empty, [''email'' \<mapsto> Accessor None (Some (\<lambda>v this. this))]],
            onInit = None, onConnected = None, onAttributeChanged = None, render = id\<rparr>
           ''email'' Null (Str ''a@b.com'')
           \<lparr>self = \<lparr>props = Map.empty, childNodes = [], adoptedStyleSheets = Some []\<rparr>, log = []\<rparr>
    of Inl x \<Rightarrow> [] | Inr w \<Rightarrow> log w)
   = [Assignment ''email'' (Str ''a@b.com''), SetterCall ''email'' (Str ''a@b.com'')]"
  by (simp add: attributeChangedCallback_def reflect_def own_setter_def set_prop_def call_hook_def
      get_prop_def upper_of_def)

text \<open>
  Claim C2, amended. For a change with different old and new values: if the instance's first
  prototype has an own accessor named exactly like the attribute, with a setter, the callback
  calls that setter with the new value and makes no assignment; a callback that returns has
  logged the setter call first, then at most the change hook and the Reference Pass. If the
  first prototype has no such setter, the callback takes the assignment branch: it assigns the
  new value to the property named by the camel-cased attribute name.
\<close>

theorem attributeChangedCallback_setter:
  assumes "oldValue \<noteq> newValue"
  shows "(own_setter c name = Some setter \<longrightarrow>
            reflect c name (camelCase name) newValue w =
              Inr (w\<lparr>self := setter newValue (self w), log := log w @ [SetterCall name newValue]\<rparr>)
            \<and> (\<forall>w'. attributeChangedCallback c name oldValue newValue w = Inr w' \<longrightarrow>
                  (\<exists>h r. log w' = log w @ [SetterCall name newValue] @ h @ r
                     \<and> (h = [] \<or> h = [ChangeHook name oldValue newValue])
                     \<and> (r = [] \<or> r = [ReferencePass (Some name)]))))
       \<and> (own_setter c name = None \<longrightarrow>
            reflect c name (camelCase name) newValue w =
              set_prop c (camelCase name) newValue
                (w\<lparr>log := log w @ [Assignment (camelCase name) newValue]\<rparr>)
            \<and> (\<forall>w'. attributeChangedCallback c name oldValue newValue w = Inr w' \<longrightarrow>
                  prefix (log w @ [Assignment (camelCase name) newValue]) (log w')))"
proof (intro conjI impI allI)
  assume s: "own_setter c name = Some setter"
  let ?w1 = "w\<lparr>self := setter newValue (self w), log := log w @ [SetterCall name newValue]\<rparr>"
  show r: "reflect c name (camelCase name) newValue w = Inr ?w1"
    using s by (simp add: reflect_def)
  fix w' assume a: "attributeChangedCallback c name oldValue newValue w = Inr w'"
  let ?w2 = "call_hook (ChangeHook name oldValue newValue)
               (map_option (\<lambda>h. h name oldValue newValue) (onAttributeChanged c)) ?w1"
  obtain h where h: "log ?w2 = log ?w1 @ h" "h = [] \<or> h = [ChangeHook name oldValue newValue]"
    using call_hook_cases by blast
  show "\<exists>h r. log w' = log w @ [SetterCall name newValue] @ h @ r
          \<and> (h = [] \<or> h = [ChangeHook name oldValue newValue])
          \<and> (r = [] \<or> r = [ReferencePass (Some name)])"
  proof (cases "truthy (get_prop c (self ?w2) ''_isConnected'')")
    case True
    with a assms r have "updateReferences c (Some name) ?w2 = Inr w'"
      by (simp add: attributeChangedCallback_def)
    from updateReferences_log[OF this] h show ?thesis by auto
  next
    case False
    with a assms r have "w' = ?w2" by (simp add: attributeChangedCallback_def)
    with h show ?thesis by auto
  qed
next
  assume s: "own_setter c name = None"
  let ?w0 = "w\<lparr>log := log w @ [Assignment (camelCase name) newValue]\<rparr>"
  show r: "reflect c name (camelCase name) newValue w = set_prop c (camelCase name) newValue ?w0"
    using s by (simp add: reflect_def)
  fix w' assume a: "attributeChangedCallback c name oldValue newValue w = Inr w'"
  then obtain w1 where w1: "set_prop c (camelCase name) newValue ?w0 = Inr w1"
    using assms r by (auto simp: attributeChangedCallback_def split: sum.splits)
  then have p1: "prefix (log ?w0) (log w1)"
    by (auto simp: set_prop_def split: option.splits descr.splits)
  let ?w2 = "call_hook (ChangeHook name oldValue newValue)
               (map_option (\<lambda>h. h name oldValue newValue) (onAttributeChanged c)) w1"
  have p2: "prefix (log w1) (log ?w2)"
    using call_hook_cases[of "ChangeHook name oldValue newValue" _ w1] by (metis prefixI)
  have "prefix (log ?w2) (log w')"
  proof (cases "truthy (get_prop c (self ?w2) ''_isConnected'')")
    case True
    with a assms r w1 have "updateReferences c (Some name) ?w2 = Inr w'"
      by (simp add: attributeChangedCallback_def)
    from updateReferences_log[OF this] show ?thesis by simp
  next
    case False
    with a assms r w1 have "w' = ?w2" by (simp add: attributeChangedCallback_def)
    then show ?thesis by simp
  qed
  with p1 p2 show "prefix (log w @ [Assignment (camelCase name) newValue]) (log w')"
    by (metis (no_types, lifting) prefix_order.order_trans select_convs(2) surjective update_convs(2))
qed

theorem attributeChangedCallback_setter_witness:
  "(case attributeChangedCallback
           \<lparr>chain = [[''email'' \<mapsto> Accessor None
                        (Some (\<lambda>v this. this\<lparr>props := (props this)(''_email'' \<mapsto> v)\<rparr>))]],
            onInit = None, onConnected = None, onAttributeChanged = None, render = id\<rparr>
           ''email'' Null (Str ''a@b.com'')
           \<lparr>self = \<lparr>props = Map.empty, childNodes = [], adoptedStyleSheets = Some []\<rparr>, log = []\<rparr>
    of Inl x \<Rightarrow> [] | Inr w \<Rightarrow> log w)
   = [SetterCall ''email'' (Str ''a@b.com'')]"
  using attributeChangedCallback_setter[of Null "Str ''a@b.com''"
      "\<lparr>chain = [[''email'' \<mapsto> Accessor None
                        (Some (\<lambda>v this. this\<lparr>props := (props this)(''_email'' \<mapsto> v)\<rparr>))]],
            onInit = None, onConnected = None, onAttributeChanged = None, render = id\<rparr>"
      "''email''" "\<lambda>v this. this\<lparr>props := (props this)(''_email'' \<mapsto> v)\<rparr>"
      "\<lparr>self = \<lparr>props = Map.empty, childNodes = [], adoptedStyleSheets = Some []\<rparr>, log = []\<rparr>",
      THEN conjunct1]
  by (simp add: own_setter_def attributeChangedCallback_def call_hook_def get_prop_def)

text \<open>
  Claim C3 on the variant that does not convert the name: after the change of the attribute
  \<open>user-name\<close> to \<open>Jane\<close>, with no setter, the property \<open>userName\<close> is still absent and the value
  is stored under \<open>user-name\<close>. The current variant stores it under \<open>userName\<close>.
\<close>

theorem attributeChangedCallback_plain_keeps_hyphen:
  "(case attributeChangedCallback_plain
           \<lparr>chain = [Map.empty], onInit = None, onConnected = None,
            onAttributeChanged = None, render = id\<rparr>
           ''user-name'' Null (Str ''Jane'')
           \<lparr>self = \<lparr>props = Map.empty, childNodes = [], adoptedStyleSheets = Some []\<rparr>, log = []\<rparr>
    of Inl x \<Rightarrow> None
     | Inr w \<Rightarrow> Some (props (self w) ''userName'', props (self w) ''user-name''))
   = Some (None, Some (Str ''Jane''))
   \<and> (case attributeChangedCallback
           \<lparr>chain = [Map.empty], onInit = None, onConnected = None,
            onAttributeChanged = None, render = id\<rparr>
           ''user-name'' Null (Str ''Jane'')
           \<lparr>self = \<lparr>props = Map.empty, childNodes = [], adoptedStyleSheets = Some []\<rparr>, log = []\<rparr>
    of Inl x \<Rightarrow> None
     | Inr w \<Rightarrow> Some (props (self w) ''userName'', props (self w) ''user-name''))
   = Some (Some (Str ''Jane''), None)"
  by (simp add: attributeChangedCallback_plain_def attributeChangedCallback_def reflect_def
      own_setter_def set_prop_def call_hook_def get_prop_def upper_of_def)

text \<open>
  Claim C4 on a connected component whose marker is bound to \<open>userName\<close>: the change of the
  attribute \<open>user-name\<close> assigns the new value under \<open>userName\<close>, but the Reference Pass is
  restricted to the attribute name \<open>user-name\<close> and leaves the marker at its old text. A pass
  restricted to \<open>userName\<close> on the same state writes the new value into the marker.
\<close>

theorem attributeChangedCallback_pass_key:
  "(case attributeChangedCallback
           \<lparr>chain = [Map.empty], onInit = None, onConnected = None,
            onAttributeChanged = None, render = id\<rparr>
           ''user-name'' (Str ''Joe'') (Str ''Jane'')
           \<lparr>self = \<lparr>props = [''_isConnected'' \<mapsto> Bool True, ''userName'' \<mapsto> Str ''Joe''],
                    childNodes = [Element ''span'' [(''data-ref'', ''userName'')] [Text ''Joe'']],
                    adoptedStyleSheets = Some []\<rparr>, log = []\<rparr>
    of Inl x \<Rightarrow> None
     | Inr w \<Rightarrow> Some (props (self w) ''userName'', log w, childNodes (self w)))
   = Some (Some (Str ''Jane''),
           [Assignment ''userName'' (Str ''Jane''), FieldWrite ''userName'' (Str ''Jane''),
            ReferencePass (Some ''user-name'')],
           [Element ''span'' [(''data-ref'', ''userName'')] [Text ''Joe'']])
   \<and> (case updateReferences
           \<lparr>chain = [Map.empty], onInit = None, onConnected = None,
            onAttributeChanged = None, render = id\<rparr>
           (Some ''userName'')
           \<lparr>self = \<lparr>props = [''_isConnected'' \<mapsto> Bool True, ''userName'' \<mapsto> Str ''Jane''],
                    childNodes = [Element ''span'' [(''data-ref'', ''userName'')] [Text ''Joe'']],
                    adoptedStyleSheets = Some []\<rparr>, log = []\<rparr>
    of Inl x \<Rightarrow> None
     | Inr w \<Rightarrow> Some (childNodes (self w)))
   = Some [Element ''span'' [(''data-ref'', ''userName''), (''data-value'', ''Jane'')] [Text ''Jane'']]"
  by (simp add: attributeChangedCallback_def reflect_def own_setter_def set_prop_def call_hook_def
      get_prop_def upper_of_def updateReferences_def querySelectorAll_data_ref_def
      update_marker_def getAttribute_def filtered_out_def element_at_def replace_at_def
      write_value_def setAttribute_def valid_attribute_name_def set_textContent_def)

subsection \<open>The Reference Pass and the tree\<close>















































end
